theory Spec2Isabelle
  imports Main "HOL-Library.Char_ord" "HOL-Library.List_Lexorder" "HOL-Library.Option_ord"
    "HOL-Library.Multiset"
begin

section \<open>Strings and characters\<close>

text \<open>
  A Python \<open>str\<close> is modelled as a \<open>string\<close> whose characters are code points below 256.
  The character classes are those of CPython's \<open>str\<close> methods restricted to that range;
  strings are ordered by code point, which is also the order of SQLite's BINARY collation.
\<close>

definition code :: "char \<Rightarrow> nat" where
  "code c = of_char c"

definition isspace :: "char \<Rightarrow> bool" where
  \<comment> \<open>the characters removed by \<open>str.strip()\<close>\<close>
  "isspace c = (let n = code c in (9 \<le> n \<and> n \<le> 13) \<or> (28 \<le> n \<and> n \<le> 32) \<or> n = 133 \<or> n = 160)"

definition isupper :: "char \<Rightarrow> bool" where
  "isupper c = (let n = code c in (65 \<le> n \<and> n \<le> 90) \<or> (192 \<le> n \<and> n \<le> 214) \<or> (216 \<le> n \<and> n \<le> 222))"

definition islower :: "char \<Rightarrow> bool" where
  "islower c = (let n = code c in (97 \<le> n \<and> n \<le> 122) \<or> n = 170 \<or> n = 181 \<or> n = 186
      \<or> (223 \<le> n \<and> n \<le> 246) \<or> (248 \<le> n \<and> n \<le> 255))"

definition isdigit :: "char \<Rightarrow> bool" where
  "isdigit c = (let n = code c in (48 \<le> n \<and> n \<le> 57) \<or> n = 178 \<or> n = 179 \<or> n = 185)"

definition lower_char :: "char \<Rightarrow> char" where
  "lower_char c = (if isupper c then char_of (code c + 32) else c)"

definition lower :: "string \<Rightarrow> string" where
  \<comment> \<open>\<open>str.lower()\<close>\<close>
  "lower s = map lower_char s"

definition equals_ignoring_case :: "string \<Rightarrow> string \<Rightarrow> bool" where
  \<comment> \<open>the specification's comparison with a word of lower-case ASCII letters: each
      character is the word's letter or its capital\<close>
  "equals_ignoring_case s w =
     list_all2 (\<lambda>c x. c = x \<or> (97 \<le> code x \<and> code x \<le> 122 \<and> code c + 32 = code x)) s w"

definition strip_by :: "(char \<Rightarrow> bool) \<Rightarrow> string \<Rightarrow> string" where
  "strip_by P s = rev (dropWhile P (rev (dropWhile P s)))"

definition strip :: "string \<Rightarrow> string" where
  \<comment> \<open>\<open>str.strip()\<close>: leading and trailing whitespace removed\<close>
  "strip s = strip_by isspace s"

definition strip_backticks :: "string \<Rightarrow> string" where
  \<comment> \<open>\<open>str.strip('`')\<close>\<close>
  "strip_backticks s = strip_by (\<lambda>c. c = CHR 0x60) s"

definition digit_char :: "nat \<Rightarrow> char" where
  "digit_char n = char_of (48 + n)"

fun dec :: "nat \<Rightarrow> string" where
  \<comment> \<open>decimal rendering of a natural number\<close>
  "dec n = (if n < 10 then [digit_char n] else dec (n div 10) @ [digit_char (n mod 10)])"

definition dec_int :: "int \<Rightarrow> string" where
  "dec_int i = (if i < 0 then CHR ''-'' # dec (nat (- i)) else dec (nat i))"

section \<open>Values exchanged with the libraries\<close>

text \<open>
  The value \<open>json.loads\<close> returns: \<open>None\<close>, a bool, an int, a float, a str, a list or a
  dict. A float is carried as the text that SQLite keeps of it in a TEXT column; a dict is
  an association list read with \<open>map_of\<close>.
\<close>

datatype json = JNull | JBool bool | JInt int | JFloat string | JString string
  | JArray "json list" | JObject "(string \<times> json) list"

text \<open>The exceptions of the Python code that the model tracks.\<close>

datatype exn = KeyError | IntegrityError | ProgrammingError | OverflowError
  | JSONDecodeError | AttributeError | IndexError | OperationalError

section \<open>The store (database.py)\<close>

record user_row =
  u_id :: int
  u_email :: string
  u_password :: string
  u_created_at :: string

record task_row =
  t_id :: int
  t_user_id :: int
  t_task :: string
  t_customer :: "string option"
  t_due_date :: "string option"
  t_priority :: "string option"
  t_status :: string
  t_completion_date :: "string option"
  t_created_at :: string

text \<open>
  The two tables of \<open>init_database\<close>, and the counter that AUTOINCREMENT keeps for the
  tasks table. \<open>None\<close> in a column is SQL NULL; \<open>task\<close> is NOT NULL, \<open>status\<close> is only
  ever written by the column default and by \<open>complete_task\<close>.

  Every operation opens its own connection. Its parameter \<open>conn\<close> tells whether
  \<open>get_connection\<close> returned one; without a connection the operation leaves the store
  alone and returns \<open>False\<close>, \<open>None\<close> or the empty list.

  \<open>save_task\<close>, \<open>complete_task\<close> and \<open>delete_task\<close> catch every exception of their
  statement and return \<open>False\<close>. Two kinds of exception are modelled: the OverflowError
  of an id that does not fit the 64 bits of an SQLite INTEGER, and an exception raised by
  the engine itself at \<open>execute\<close> or \<open>commit\<close> (a locked or damaged database), given
  by the parameter \<open>fault\<close>; a statement that raised is not committed.
  \<open>register_user\<close>, \<open>verify_user\<close> and \<open>get_tasks\<close> have no handler for an exception of
  the engine, which then leaves the function; they are given for an engine that raises
  none and, in \<open>get_tasks\<close>, for a user id that the store handed out.
\<close>

record db =
  users :: "user_row list"
  tasks :: "task_row list"
  task_seq :: int

definition init_database :: db where
  "init_database = \<lparr>users = [], tasks = [], task_seq = 0\<rparr>"

definition next_user_id :: "user_row list \<Rightarrow> int" where
  \<comment> \<open>INTEGER PRIMARY KEY: one more than the largest id in the table\<close>
  "next_user_id us = fold max (map u_id us) 0 + 1"

definition next_task_id :: "db \<Rightarrow> int" where
  \<comment> \<open>AUTOINCREMENT: one more than the largest id the table ever held\<close>
  "next_task_id d = fold max (map t_id (tasks d)) (task_seq d) + 1"

definition insert_user :: "string \<Rightarrow> db \<Rightarrow> string \<Rightarrow> string \<Rightarrow> exn + db" where
  \<comment> \<open>\<open>INSERT INTO users (email, password) VALUES (?, ?)\<close> under \<open>email TEXT UNIQUE\<close>\<close>
  "insert_user ts d e h =
     (if e \<in> set (map u_email (users d)) then Inl IntegrityError
      else Inr (d\<lparr>users := users d @
             [\<lparr>u_id = next_user_id (users d), u_email = e, u_password = h, u_created_at = ts\<rparr>]\<rparr>))"

definition register_user ::
  "(string \<Rightarrow> string) \<Rightarrow> bool \<Rightarrow> string \<Rightarrow> db \<Rightarrow> string \<Rightarrow> string \<Rightarrow> exn + (bool \<times> db)" where
  \<comment> \<open>\<open>H\<close> is \<open>hash_password\<close> (the SHA-256 hex digest), \<open>conn\<close> tells whether
      \<open>get_connection\<close> returned a connection, \<open>ts\<close> is the engine's CURRENT_TIMESTAMP.
      Only \<open>sqlite3.IntegrityError\<close> is caught; any other exception leaves the function.\<close>
  "register_user H conn ts d e p =
     (if conn then
        (case insert_user ts d e (H p) of
           Inr d' \<Rightarrow> Inr (True, d')
         | Inl IntegrityError \<Rightarrow> Inr (False, d)
         | Inl x \<Rightarrow> Inl x)
      else Inr (False, d))"

record identity =
  ident_id :: int
  ident_email :: string

definition verify_user ::
  "(string \<Rightarrow> string) \<Rightarrow> bool \<Rightarrow> db \<Rightarrow> string \<Rightarrow> string \<Rightarrow> identity option" where
  \<comment> \<open>\<open>SELECT id, email FROM users WHERE email=? AND password=?\<close>, then \<open>fetchone\<close>\<close>
  "verify_user H conn d e p =
     (if conn then
        (case filter (\<lambda>r. u_email r = e \<and> u_password r = H p) (users d) of
           [] \<Rightarrow> None
         | r # _ \<Rightarrow> Some \<lparr>ident_id = u_id r, ident_email = u_email r\<rparr>)
      else None)"

definition bind_text :: "json \<Rightarrow> exn + string option" where
  \<comment> \<open>a Python value bound to a parameter and stored in a column of TEXT affinity\<close>
  "bind_text v =
     (case v of
        JNull \<Rightarrow> Inr None
      | JBool b \<Rightarrow> Inr (Some (if b then ''1'' else ''0''))
      | JInt i \<Rightarrow> if - (2 ^ 63) \<le> i \<and> i < 2 ^ 63 then Inr (Some (dec_int i)) else Inl OverflowError
      | JFloat t \<Rightarrow> Inr (Some t)
      | JString s \<Rightarrow> Inr (Some s)
      | JArray _ \<Rightarrow> Inl ProgrammingError
      | JObject _ \<Rightarrow> Inl ProgrammingError)"

definition getitem :: "(string \<times> json) list \<Rightarrow> string \<Rightarrow> exn + json" where
  \<comment> \<open>\<open>task_data[key]\<close>\<close>
  "getitem kvs k = (case map_of kvs k of None \<Rightarrow> Inl KeyError | Some v \<Rightarrow> Inr v)"

definition fits_int64 :: "int \<Rightarrow> bool" where
  \<comment> \<open>the Python ints that can be bound as an SQLite INTEGER\<close>
  "fits_int64 i = (- (2 ^ 63) \<le> i \<and> i < 2 ^ 63)"

definition insert_task ::
  "exn option \<Rightarrow> string \<Rightarrow> db \<Rightarrow> int \<Rightarrow> (string \<times> json) list \<Rightarrow> exn + db" where
  \<comment> \<open>\<open>INSERT INTO tasks (user_id, task, customer, due_date, priority) VALUES (?, ?, ?, ?, ?)\<close>
      and the commit: the four subscripts, the binding of \<open>user_id\<close> and of each value, the
      NOT NULL constraint on \<open>task\<close>, the engine's own exception\<close>
  "insert_task fault ts d user_id task_data =
     (case getitem task_data ''task'' of Inl x \<Rightarrow> Inl x | Inr jt \<Rightarrow>
     (case getitem task_data ''customer'' of Inl x \<Rightarrow> Inl x | Inr jc \<Rightarrow>
     (case getitem task_data ''due_date'' of Inl x \<Rightarrow> Inl x | Inr jd \<Rightarrow>
     (case getitem task_data ''priority'' of Inl x \<Rightarrow> Inl x | Inr jp \<Rightarrow>
     (if \<not> fits_int64 user_id then Inl OverflowError else
     (case bind_text jt of Inl x \<Rightarrow> Inl x | Inr t \<Rightarrow>
     (case bind_text jc of Inl x \<Rightarrow> Inl x | Inr c \<Rightarrow>
     (case bind_text jd of Inl x \<Rightarrow> Inl x | Inr dd \<Rightarrow>
     (case bind_text jp of Inl x \<Rightarrow> Inl x | Inr p \<Rightarrow>
     (case t of None \<Rightarrow> Inl IntegrityError | Some tt \<Rightarrow>
     (case fault of Some x \<Rightarrow> Inl x | None \<Rightarrow>
        Inr (d\<lparr>tasks := tasks d @
               [\<lparr>t_id = next_task_id d, t_user_id = user_id, t_task = tt, t_customer = c,
                 t_due_date = dd, t_priority = p, t_status = ''active'',
                 t_completion_date = None, t_created_at = ts\<rparr>],
             task_seq := next_task_id d\<rparr>))))))))))))"

definition save_task ::
  "bool \<Rightarrow> exn option \<Rightarrow> string \<Rightarrow> db \<Rightarrow> int \<Rightarrow> (string \<times> json) list \<Rightarrow> bool \<times> db" where
  \<comment> \<open>every exception of the insert is caught and reported as \<open>False\<close>\<close>
  "save_task conn fault ts d user_id task_data =
     (if conn then
        (case insert_task fault ts d user_id task_data of
           Inr d' \<Rightarrow> (True, d')
         | Inl _ \<Rightarrow> (False, d))
      else (False, d))"




section \<open>Dates (datetime)\<close>

record datetime =
  year :: nat
  month :: nat
  day :: nat
  hour :: nat
  minute :: nat

definition pad2 :: "nat \<Rightarrow> string" where
  \<comment> \<open>a number in at least two digits, as \<open>%d\<close>, \<open>%m\<close>, \<open>%H\<close>, \<open>%M\<close> print it\<close>
  "pad2 n = (if n < 10 then CHR ''0'' # dec n else dec n)"

definition strftime_dmY :: "datetime \<Rightarrow> string" where
  \<comment> \<open>\<open>strftime('%d-%m-%Y')\<close>: the C library prints \<open>%Y\<close> as the plain decimal number,
      so a year below 1000 has fewer than four digits\<close>
  "strftime_dmY t = pad2 (day t) @ ''-'' @ pad2 (month t) @ ''-'' @ dec (year t)"

definition four_digits :: "nat \<Rightarrow> string" where
  \<comment> \<open>a year as the field YYYY: zeros in front up to four digits\<close>
  "four_digits n = replicate (4 - length (dec n)) (CHR ''0'') @ dec n"

definition ddmmyyyy :: "datetime \<Rightarrow> string" where
  \<comment> \<open>the specification's text form DD-MM-YYYY of a date\<close>
  "ddmmyyyy t = pad2 (day t) @ ''-'' @ pad2 (month t) @ ''-'' @ four_digits (year t)"

definition strftime_dmYHM :: "datetime \<Rightarrow> string" where
  \<comment> \<open>\<open>strftime('%d-%m-%Y %H:%M')\<close>\<close>
  "strftime_dmYHM t = strftime_dmY t @ '' '' @ pad2 (hour t) @ '':'' @ pad2 (minute t)"

definition update_completed :: "exn option \<Rightarrow> datetime \<Rightarrow> db \<Rightarrow> int \<Rightarrow> int \<Rightarrow> exn + db" where
  \<comment> \<open>\<open>UPDATE tasks SET status='completed', completion_date=? WHERE id=? AND user_id=?\<close>
      and the commit: the binding of the two ids, the engine's own exception, the update
      of the rows that match (there may be none)\<close>
  "update_completed fault now d user_id task_id =
     (if \<not> fits_int64 task_id \<or> \<not> fits_int64 user_id then Inl OverflowError
      else
        (case fault of
           Some x \<Rightarrow> Inl x
         | None \<Rightarrow>
             Inr (d\<lparr>tasks := map (\<lambda>t. if t_id t = task_id \<and> t_user_id t = user_id
                                       then t\<lparr>t_status := ''completed'',
                                              t_completion_date := Some (strftime_dmYHM now)\<rparr>
                                       else t) (tasks d)\<rparr>)))"

definition complete_task ::
  "bool \<Rightarrow> exn option \<Rightarrow> datetime \<Rightarrow> db \<Rightarrow> int \<Rightarrow> int \<Rightarrow> bool \<times> db" where
  \<comment> \<open>\<open>True\<close> is returned after the commit, whatever the number of rows updated;
      every exception is caught and reported as \<open>False\<close>\<close>
  "complete_task conn fault now d user_id task_id =
     (if conn then
        (case update_completed fault now d user_id task_id of
           Inr d' \<Rightarrow> (True, d')
         | Inl _ \<Rightarrow> (False, d))
      else (False, d))"

definition delete_rows :: "exn option \<Rightarrow> db \<Rightarrow> int \<Rightarrow> int \<Rightarrow> exn + db" where
  \<comment> \<open>\<open>DELETE FROM tasks WHERE id=? AND user_id=?\<close> and the commit\<close>
  "delete_rows fault d user_id task_id =
     (if \<not> fits_int64 task_id \<or> \<not> fits_int64 user_id then Inl OverflowError
      else
        (case fault of
           Some x \<Rightarrow> Inl x
         | None \<Rightarrow>
             Inr (d\<lparr>tasks := filter (\<lambda>t. \<not> (t_id t = task_id \<and> t_user_id t = user_id))
                                 (tasks d)\<rparr>)))"

definition delete_task :: "bool \<Rightarrow> exn option \<Rightarrow> db \<Rightarrow> int \<Rightarrow> int \<Rightarrow> bool \<times> db" where
  "delete_task conn fault d user_id task_id =
     (if conn then
        (case delete_rows fault d user_id task_id of
           Inr d' \<Rightarrow> (True, d')
         | Inl _ \<Rightarrow> (False, d))
      else (False, d))"

section \<open>The password policy (auth.py)\<close>

definition validate_password :: "string \<Rightarrow> bool \<times> string" where
  "validate_password password =
     (if length password < 8 then (False, ''Password must be at least 8 characters long'')
      else if \<not> list_ex isupper password
        then (False, ''Password must contain at least one uppercase letter'')
      else if \<not> list_ex islower password
        then (False, ''Password must contain at least one lowercase letter'')
      else if \<not> list_ex isdigit password
        then (False, ''Password must contain at least one number'')
      else (True, ''''))"

section \<open>Calendar dates\<close>

definition is_leap :: "nat \<Rightarrow> bool" where
  "is_leap y = (y mod 4 = 0 \<and> (y mod 100 \<noteq> 0 \<or> y mod 400 = 0))"

definition days_in_month :: "nat \<Rightarrow> nat \<Rightarrow> nat" where
  "days_in_month y m =
     (if m = 2 then (if is_leap y then 29 else 28)
      else if m = 4 \<or> m = 6 \<or> m = 9 \<or> m = 11 then 30 else 31)"

definition valid_date :: "nat \<Rightarrow> nat \<Rightarrow> nat \<Rightarrow> bool" where
  \<comment> \<open>the dates \<open>datetime\<close> can hold: years 1 to 9999\<close>
  "valid_date y m d =
     (1 \<le> y \<and> y \<le> 9999 \<and> 1 \<le> m \<and> m \<le> 12 \<and> 1 \<le> d \<and> d \<le> days_in_month y m)"

definition add_one_day :: "datetime \<Rightarrow> exn + datetime" where
  \<comment> \<open>\<open>t + timedelta(days=1)\<close>; past 31-12-9999 the addition raises OverflowError\<close>
  "add_one_day t =
     (if day t < days_in_month (year t) (month t) then Inr (t\<lparr>day := day t + 1\<rparr>)
      else if month t < 12 then Inr (t\<lparr>month := month t + 1, day := 1\<rparr>)
      else if year t < 9999 then Inr (t\<lparr>year := year t + 1, month := 1, day := 1\<rparr>)
      else Inl OverflowError)"

definition date_less :: "datetime \<Rightarrow> datetime \<Rightarrow> bool" where
  \<comment> \<open>\<open>a.date() < b.date()\<close>\<close>
  "date_less a b =
     (year a < year b \<or> (year a = year b \<and>
       (month a < month b \<or> (month a = month b \<and> day a < day b))))"


subsection \<open>Parsing with the format \<open>%d-%m-%Y\<close>\<close>

text \<open>
  \<open>strptime\<close> compiles the format to the regular expression
  \<^verbatim>\<open>(?P<d>3[0-1]|[1-2]\d|0[1-9]|[1-9]| [1-9])-(?P<m>1[0-2]|0[1-9]|[1-9])-(?P<Y>\d\d\d\d)\<close>,
  matches it at the start of the string, rejects a match that does not end at the end of
  the string, and builds a date from the three numbers, which rejects an impossible date.
  Each \<open>match\<close> function lists the ways its group can match, in the order of the
  alternatives; the first way that lets the rest of the expression match is the one taken.
\<close>

definition in_digits :: "nat \<Rightarrow> nat \<Rightarrow> char \<Rightarrow> bool" where
  \<comment> \<open>the character class \<open>[lo-hi]\<close> of decimal digits\<close>
  "in_digits lo hi c = (48 + lo \<le> code c \<and> code c \<le> 48 + hi)"

definition digit_val :: "char \<Rightarrow> nat" where
  "digit_val c = code c - 48"

definition match_d :: "string \<Rightarrow> (nat \<times> string) list" where
  "match_d s =
     (case s of c1 # c2 # r \<Rightarrow>
        (if c1 = CHR ''3'' \<and> in_digits 0 1 c2 then [(30 + digit_val c2, r)] else []) @
        (if in_digits 1 2 c1 \<and> in_digits 0 9 c2 then [(10 * digit_val c1 + digit_val c2, r)] else []) @
        (if c1 = CHR ''0'' \<and> in_digits 1 9 c2 then [(digit_val c2, r)] else [])
      | _ \<Rightarrow> []) @
     (case s of c1 # r \<Rightarrow> (if in_digits 1 9 c1 then [(digit_val c1, r)] else []) | _ \<Rightarrow> []) @
     (case s of c1 # c2 # r \<Rightarrow>
        (if c1 = CHR '' '' \<and> in_digits 1 9 c2 then [(digit_val c2, r)] else [])
      | _ \<Rightarrow> [])"

definition match_m :: "string \<Rightarrow> (nat \<times> string) list" where
  "match_m s =
     (case s of c1 # c2 # r \<Rightarrow>
        (if c1 = CHR ''1'' \<and> in_digits 0 2 c2 then [(10 + digit_val c2, r)] else []) @
        (if c1 = CHR ''0'' \<and> in_digits 1 9 c2 then [(digit_val c2, r)] else [])
      | _ \<Rightarrow> []) @
     (case s of c1 # r \<Rightarrow> (if in_digits 1 9 c1 then [(digit_val c1, r)] else []) | _ \<Rightarrow> [])"

definition match_Y :: "string \<Rightarrow> (nat \<times> string) list" where
  "match_Y s =
     (case s of c1 # c2 # c3 # c4 # r \<Rightarrow>
        (if in_digits 0 9 c1 \<and> in_digits 0 9 c2 \<and> in_digits 0 9 c3 \<and> in_digits 0 9 c4
         then [(1000 * digit_val c1 + 100 * digit_val c2 + 10 * digit_val c3 + digit_val c4, r)]
         else [])
      | _ \<Rightarrow> [])"

definition match_dash :: "string \<Rightarrow> string list" where
  "match_dash s = (case s of c # r \<Rightarrow> (if c = CHR ''-'' then [r] else []) | _ \<Rightarrow> [])"

definition match_d_dash :: "string \<Rightarrow> (nat \<times> string) list" where
  \<comment> \<open>the day group followed by the first dash\<close>
  "match_d_dash s = [(d, r2). (d, r1) \<leftarrow> match_d s, r2 \<leftarrow> match_dash r1]"

definition match_m_dash :: "string \<Rightarrow> (nat \<times> string) list" where
  \<comment> \<open>the month group followed by the second dash\<close>
  "match_m_dash s = [(m, r2). (m, r1) \<leftarrow> match_m s, r2 \<leftarrow> match_dash r1]"

definition strptime_dmY :: "string \<Rightarrow> datetime option" where
  \<comment> \<open>\<open>datetime.strptime(s, '%d-%m-%Y')\<close>; \<open>None\<close> is the ValueError\<close>
  "strptime_dmY s =
     (case [(d, m, y, r3). (d, r1) \<leftarrow> match_d_dash s, (m, r2) \<leftarrow> match_m_dash r1,
                           (y, r3) \<leftarrow> match_Y r2] of
        [] \<Rightarrow> None
      | (d, m, y, r) # _ \<Rightarrow>
          if r \<noteq> [] then None
          else if valid_date y m d
            then Some \<lparr>year = y, month = m, day = d, hour = 0, minute = 0\<rparr>
          else None)"

section \<open>The extraction pipeline (app.py)\<close>

text \<open>
  What the call of the external model does: it raises (also when the model could not be
  initialised), or it returns a response whose text may be missing.
\<close>

datatype generation = Raises | Generated "string option"

definition query_gemini :: "generation \<Rightarrow> string option" where
  "query_gemini g =
     (case g of
        Raises \<Rightarrow> None
      | Generated None \<Rightarrow> None
      | Generated (Some t) \<Rightarrow> (if t = [] then None else Some t))"

definition fence :: string where
  "fence = [CHR 0x60, CHR 0x60, CHR 0x60]"

fun has_fence :: "string \<Rightarrow> bool" where
  \<comment> \<open>\<open>fence in s\<close>\<close>
  "has_fence [] = False"
| "has_fence (c # cs) = (take 3 (c # cs) = fence \<or> has_fence cs)"

fun split_from :: "string \<Rightarrow> string \<Rightarrow> string list" where
  \<comment> \<open>\<open>s.split(fence)\<close>, with the segment read so far in reverse\<close>
  "split_from acc [] = [rev acc]"
| "split_from acc (c # cs) =
     (if take 3 (c # cs) = fence then rev acc # split_from [] (drop 2 cs)
      else split_from (c # acc) cs)"

definition split_fence :: "string \<Rightarrow> string list" where
  "split_fence s = split_from [] s"

definition item :: "'a list \<Rightarrow> nat \<Rightarrow> exn + 'a" where
  \<comment> \<open>\<open>xs[i]\<close> for \<open>i \<ge> 0\<close>\<close>
  "item xs i = (if i < length xs then Inr (xs ! i) else Inl IndexError)"

definition unwrap :: "string \<Rightarrow> exn + string" where
  \<comment> \<open>the code-block extraction: lines 108 to 112 of app.py\<close>
  "unwrap response =
     (case (if has_fence response
            then (case item (split_fence response) 1 of
                    Inl x \<Rightarrow> Inl x
                  | Inr seg \<Rightarrow> Inr (if take 4 seg = ''json'' then drop 4 seg else seg))
            else Inr response) of
        Inl x \<Rightarrow> Inl x
      | Inr r \<Rightarrow> Inr (strip (strip_backticks r)))"

fun setitem :: "(string \<times> json) list \<Rightarrow> string \<Rightarrow> json \<Rightarrow> (string \<times> json) list" where
  \<comment> \<open>\<open>d[k] = v\<close>\<close>
  "setitem [] k v = [(k, v)]"
| "setitem ((k', v') # kvs) k v = (if k' = k then (k, v) # kvs else (k', v') # setitem kvs k v)"

definition required_fields :: "string list" where
  "required_fields = [''task'', ''customer'', ''due_date'', ''priority'']"

definition normalize_due_date :: "datetime \<Rightarrow> json \<Rightarrow> exn + (string \<times> json) list" where
  \<comment> \<open>lines 118 to 120: \<open>parsed.get('due_date', '').lower() == 'tomorrow'\<close> needs a dict
      and a str, and the replacement date is today plus one day\<close>
  "normalize_due_date now parsed =
     (case parsed of
        JObject kvs \<Rightarrow>
          (case (case map_of kvs ''due_date'' of
                   None \<Rightarrow> Inr []
                 | Some (JString s) \<Rightarrow> Inr s
                 | Some _ \<Rightarrow> Inl AttributeError) of
             Inl x \<Rightarrow> Inl x
           | Inr s \<Rightarrow>
               if lower s = ''tomorrow''
               then (case add_one_day now of
                       Inl x \<Rightarrow> Inl x
                     | Inr tomorrow \<Rightarrow> Inr (setitem kvs ''due_date'' (JString (strftime_dmY tomorrow))))
               else Inr kvs)
      | _ \<Rightarrow> Inl AttributeError)"

datatype failure = NoResponse | MissingFields | InvalidJSON | Error exn

definition parse_task_try ::
  "(string \<Rightarrow> json option) \<Rightarrow> datetime \<Rightarrow> generation \<Rightarrow> exn + (failure + (string \<times> json) list)" where
  \<comment> \<open>the \<open>try\<close> block of \<open>parse_task\<close>: \<open>Inl\<close> is an exception that leaves the block,
      \<open>Inr (Inl f)\<close> a \<open>return None\<close>, \<open>Inr (Inr parsed)\<close> the \<open>return parsed\<close>.
      \<open>loads\<close> is \<open>json.loads\<close>, with \<open>None\<close> for its JSONDecodeError.\<close>
  "parse_task_try loads now g =
     (case query_gemini g of
        None \<Rightarrow> Inr (Inl NoResponse)
      | Some response \<Rightarrow>
          if response = [] then Inr (Inl NoResponse)
          else
           (case unwrap (strip response) of Inl x \<Rightarrow> Inl x | Inr text \<Rightarrow>
           (case loads text of None \<Rightarrow> Inl JSONDecodeError | Some parsed \<Rightarrow>
           (case normalize_due_date now parsed of Inl x \<Rightarrow> Inl x | Inr kvs \<Rightarrow>
              if \<not> list_all (\<lambda>field. map_of kvs field \<noteq> None) required_fields
              then Inr (Inl MissingFields)
              else Inr (Inr kvs)))))"

definition parse_task ::
  "(string \<Rightarrow> json option) \<Rightarrow> datetime \<Rightarrow> generation \<Rightarrow> failure + (string \<times> json) list" where
  \<comment> \<open>the two handlers: JSONDecodeError first, then every other Exception\<close>
  "parse_task loads now g =
     (case parse_task_try loads now g of
        Inr r \<Rightarrow> r
      | Inl JSONDecodeError \<Rightarrow> Inl InvalidJSON
      | Inl x \<Rightarrow> Inl (Error x))"

definition check_overdue :: "datetime \<Rightarrow> string \<Rightarrow> bool" where
  \<comment> \<open>\<open>now\<close> is \<open>datetime.now()\<close>\<close>
  "check_overdue now due_date_str =
     (case strptime_dmY due_date_str of
        None \<Rightarrow> False
      | Some due \<Rightarrow> date_less due now)"

definition add_task ::
  "(string \<Rightarrow> json option) \<Rightarrow> bool \<Rightarrow> exn option \<Rightarrow> string \<Rightarrow> datetime \<Rightarrow> db \<Rightarrow> int \<Rightarrow> string
     \<Rightarrow> generation \<Rightarrow> db" where
  \<comment> \<open>the task form of \<open>main\<close> (lines 179 to 190) for the logged-in user \<open>user_id\<close>:
      \<open>note_input\<close> is the note, \<open>g\<close> what the model does with the prompt built from it\<close>
  "add_task loads conn fault ts now d user_id note_input g =
     (if note_input \<noteq> [] then
        (case parse_task loads now g of
           Inr parsed_task \<Rightarrow>
             if parsed_task \<noteq> [] then snd (save_task conn fault ts d user_id parsed_task) else d
         | Inl _ \<Rightarrow> d)
      else d)"

section \<open>Runs of the application\<close>

datatype event =
    Register bool string string string
  | AddTask bool "exn option" string datetime int string generation
  | Complete bool "exn option" datetime int int
  | Delete bool "exn option" int int

fun step :: "(string \<Rightarrow> string) \<Rightarrow> (string \<Rightarrow> json option) \<Rightarrow> event \<Rightarrow> db \<Rightarrow> db" where
  "step H loads (Register conn ts e p) d =
     (case register_user H conn ts d e p of Inr (_, d') \<Rightarrow> d' | Inl _ \<Rightarrow> d)"
| "step H loads (AddTask conn fault ts now user_id note g) d =
     add_task loads conn fault ts now d user_id note g"
| "step H loads (Complete conn fault now user_id task_id) d =
     snd (complete_task conn fault now d user_id task_id)"
| "step H loads (Delete conn fault user_id task_id) d =
     snd (delete_task conn fault d user_id task_id)"

definition run :: "(string \<Rightarrow> string) \<Rightarrow> (string \<Rightarrow> json option) \<Rightarrow> event list \<Rightarrow> db" where
  \<comment> \<open>the store after a sequence of operations on the empty database\<close>
  "run H loads evs = fold (step H loads) evs init_database"

fun extracted :: "(string \<Rightarrow> json option) \<Rightarrow> event \<Rightarrow> (string \<times> json) list option" where
  \<comment> \<open>the record that a task form's extraction produced, if it produced one\<close>
  "extracted loads (AddTask conn fault ts now user_id note g) =
     (case parse_task loads now g of Inr parsed \<Rightarrow> Some parsed | Inl _ \<Rightarrow> None)"
| "extracted loads _ = None"

section \<open>Example data\<close>

definition example_hash :: "string \<Rightarrow> string" where
  "example_hash p = ''#'' @ p"

definition example_now :: datetime where
  "example_now = \<lparr>year = 2024, month = 11, day = 4, hour = 9, minute = 30\<rparr>"

definition example_task :: "int \<Rightarrow> int \<Rightarrow> string \<Rightarrow> task_row" where
  "example_task i u due =
     \<lparr>t_id = i, t_user_id = u, t_task = ''Send project report'', t_customer = Some ''John'',
      t_due_date = Some due, t_priority = Some ''Medium'', t_status = ''active'',
      t_completion_date = None, t_created_at = ''2024-11-01 08:00:00''\<rparr>"

definition example_db :: db where
  "example_db =
     \<lparr>users = [\<lparr>u_id = 1, u_email = ''ann@example.org'', u_password = example_hash ''Passw0rd'',
                 u_created_at = ''2024-11-01 07:00:00''\<rparr>,
               \<lparr>u_id = 2, u_email = ''bob@example.org'', u_password = example_hash ''Secret123'',
                 u_created_at = ''2024-11-01 07:30:00''\<rparr>],
      tasks = [example_task 1 2 ''14-11-2024'', example_task 2 2 ''05-12-2024''],
      task_seq = 2\<rparr>"

definition example_response :: string where
  \<open>example_response = ''{"task":"Write an email to David on ABC project","customer":"David","due_date":"tomorrow","priority":"Medium"}''\<close>

definition example_no_priority :: string where
  \<open>example_no_priority = ''{"task":"Call Eve","customer":"Eve","due_date":"14-11-2024"}''\<close>

definition example_no_due_date :: string where
  \<open>example_no_due_date = ''{"task":"Call Eve","customer":"Eve","priority":"Low"}''\<close>

definition example_urgent :: string where
  \<open>example_urgent = ''{"task":"Call Eve","customer":"Eve","due_date":"14-11-2024","priority":"Urgent"}''\<close>

definition example_numeric_due_date :: string where
  \<open>example_numeric_due_date = ''{"task":"Call Eve","customer":"Eve","due_date":20241114,"priority":"Low"}''\<close>

definition example_no_priority_numeric :: string where
  \<open>example_no_priority_numeric = ''{"task":"Call Eve","customer":"Eve","due_date":20241114}''\<close>

definition example_loads :: "string \<Rightarrow> json option" where
  \<comment> \<open>a stand-in for \<open>json.loads\<close> that knows the six texts above\<close>
  "example_loads s =
     (if s = example_response then
        Some (JObject [(''task'', JString ''Write an email to David on ABC project''),
                       (''customer'', JString ''David''), (''due_date'', JString ''tomorrow''),
                       (''priority'', JString ''Medium'')])
      else if s = example_no_priority then
        Some (JObject [(''task'', JString ''Call Eve''), (''customer'', JString ''Eve''),
                       (''due_date'', JString ''14-11-2024'')])
      else if s = example_no_due_date then
        Some (JObject [(''task'', JString ''Call Eve''), (''customer'', JString ''Eve''),
                       (''priority'', JString ''Low'')])
      else if s = example_urgent then
        Some (JObject [(''task'', JString ''Call Eve''), (''customer'', JString ''Eve''),
                       (''due_date'', JString ''14-11-2024''), (''priority'', JString ''Urgent'')])
      else if s = example_numeric_due_date then
        Some (JObject [(''task'', JString ''Call Eve''), (''customer'', JString ''Eve''),
                       (''due_date'', JInt 20241114), (''priority'', JString ''Low'')])
      else if s = example_no_priority_numeric then
        Some (JObject [(''task'', JString ''Call Eve''), (''customer'', JString ''Eve''),
                       (''due_date'', JInt 20241114)])
      else None)"

definition example_events :: "string \<Rightarrow> event list" where
  "example_events response =
     [Register True ''2024-11-04 09:00:00'' ''eve@example.org'' ''Str0ngPass'',
      AddTask True None ''2024-11-04 09:30:00'' example_now 1 ''Write to David by tomorrow''
        (Generated (Some response))]"

section \<open>Auxiliary facts\<close>

lemma split_from_nonempty: "split_from acc s \<noteq> []"
  by (induction acc s rule: split_from.induct) auto

lemma split_from_length: "has_fence s \<Longrightarrow> 2 \<le> length (split_from acc s)"
proof (induction s arbitrary: acc rule: has_fence.induct)
  case 1
  then show ?case by simp
next
  case (2 c cs)
  show ?case
  proof (cases "take 3 (c # cs) = fence")
    case True
    have "1 \<le> length (split_from [] (drop 2 cs))"
      using split_from_nonempty [of "[]" "drop 2 cs"]
      by (cases "split_from [] (drop 2 cs)") auto
    with True show ?thesis by simp
  next
    case False
    with 2 show ?thesis by simp
  qed
qed

lemma item_split_fence: "has_fence s \<Longrightarrow> \<exists>seg. item (split_fence s) 1 = Inr seg"
  using split_from_length [of s "[]"] by (simp add: item_def split_fence_def)

lemma unwrap_total: "\<exists>t. unwrap s = Inr t"
proof (cases "has_fence s")
  case True
  from item_split_fence [OF True] obtain seg where "item (split_fence s) 1 = Inr seg" ..
  with True show ?thesis by (simp add: unwrap_def)
next
  case False
  then show ?thesis by (simp add: unwrap_def)
qed

lemma map_of_setitem: "map_of (setitem kvs k v) = (map_of kvs)(k \<mapsto> v)"
  by (induction kvs k v rule: setitem.induct) auto

lemma code_digit_char: "n < 10 \<Longrightarrow> code (digit_char n) = 48 + n"
  by (simp add: code_def digit_char_def)



lemma code_less: "code c < 256"
proof -
  have "(of_char c :: nat) mod 256 = of_char c" by (rule of_char_mod_256)
  then show ?thesis unfolding code_def by (metis mod_less_divisor zero_less_numeral)
qed

lemma code_char_of: "n < 256 \<Longrightarrow> code (char_of n) = n"
  by (simp add: code_def)

lemma char_of_code: "char_of (code c) = c"
  by (simp add: code_def)

lemma code_inject: "code c = code x \<Longrightarrow> c = x"
  by (metis char_of_code)

lemma code_lower_char: "code (lower_char c) = (if isupper c then code c + 32 else code c)"
proof (cases "isupper c")
  case True
  then have "code c + 32 < 256" by (auto simp: isupper_def Let_def)
  with True show ?thesis by (simp add: lower_char_def code_char_of)
next
  case False
  then show ?thesis by (simp add: lower_char_def)
qed

lemma lower_char_eq_iff:
  assumes "97 \<le> code x" "code x \<le> 122"
  shows "lower_char c = x \<longleftrightarrow> c = x \<or> code c + 32 = code x"
proof
  assume "lower_char c = x"
  then have "code (lower_char c) = code x" by simp
  then show "c = x \<or> code c + 32 = code x"
    by (auto simp: code_lower_char dest: code_inject split: if_splits)
next
  assume a: "c = x \<or> code c + 32 = code x"
  have "code (lower_char c) = code x"
  proof (cases "c = x")
    case True
    with assms have "\<not> isupper c" by (auto simp: isupper_def Let_def)
    with True show ?thesis by (simp add: code_lower_char)
  next
    case False
    with a have e: "code c + 32 = code x" by simp
    with assms have "isupper c" by (auto simp: isupper_def Let_def)
    with e show ?thesis by (simp add: code_lower_char)
  qed
  then show "lower_char c = x" by (rule code_inject)
qed

lemma lower_eq_iff:
  "\<forall>x\<in>set w. 97 \<le> code x \<and> code x \<le> 122 \<Longrightarrow> lower s = w \<longleftrightarrow> equals_ignoring_case s w"
proof (induction s arbitrary: w)
  case Nil
  then show ?case by (auto simp: lower_def equals_ignoring_case_def)
next
  case (Cons c s)
  show ?case
  proof (cases w)
    case Nil
    then show ?thesis by (simp add: lower_def equals_ignoring_case_def)
  next
    case (Cons x w')
    with Cons.prems have x: "97 \<le> code x" "code x \<le> 122"
      and w': "\<forall>x\<in>set w'. 97 \<le> code x \<and> code x \<le> 122" by auto
    from Cons.IH [OF w'] lower_char_eq_iff [OF x, of c] x Cons show ?thesis
      by (auto simp: lower_def equals_ignoring_case_def)
  qed
qed

lemma lower_tomorrow: "lower s = ''tomorrow'' \<longleftrightarrow> equals_ignoring_case s ''tomorrow''"
  by (rule lower_eq_iff) (simp add: code_def)



lemma digit_chars:
  "digit_char 0 = CHR ''0''" "digit_char 1 = CHR ''1''" "digit_char 2 = CHR ''2''"
  "digit_char 3 = CHR ''3''" "digit_char 4 = CHR ''4''" "digit_char 5 = CHR ''5''"
  "digit_char 6 = CHR ''6''" "digit_char 7 = CHR ''7''" "digit_char 8 = CHR ''8''"
  "digit_char 9 = CHR ''9''" "digit_char (Suc 0) = CHR ''1''"
  by code_simp+

lemmas match_defs = match_d_dash_def match_m_dash_def match_d_def match_m_def match_dash_def
  match_Y_def in_digits_def digit_val_def code_def pad2_def digit_chars

lemma day_range: "1 \<le> d \<Longrightarrow> d \<le> 31 \<Longrightarrow> d \<in> {1, 2, 3, 4, 5, 6, 7, 8, 9, 10, 11, 12, 13, 14, 15, 16, 17, 18, 19, 20, 21, 22, 23, 24, 25, 26, 27, 28, 29, 30, 31 :: nat}"
  by simp arith

lemma month_range: "1 \<le> m \<Longrightarrow> m \<le> 12 \<Longrightarrow> m \<in> {1, 2, 3, 4, 5, 6, 7, 8, 9, 10, 11, 12 :: nat}"
  by simp arith

lemma match_d_dash_all:
  "\<forall>d\<in>{1, 2, 3, 4, 5, 6, 7, 8, 9, 10, 11, 12, 13, 14, 15, 16, 17, 18, 19, 20, 21, 22, 23, 24, 25, 26, 27, 28, 29, 30, 31 :: nat}. match_d_dash (pad2 d @ CHR ''-'' # r) = [(d, r)]"
  by (simp add: match_defs)

lemma match_m_dash_all:
  "\<forall>m\<in>{1, 2, 3, 4, 5, 6, 7, 8, 9, 10, 11, 12 :: nat}. match_m_dash (pad2 m @ CHR ''-'' # r) = [(m, r)]"
  by (simp add: match_defs)

lemma match_d_dash_pad2:
  "1 \<le> d \<Longrightarrow> d \<le> 31 \<Longrightarrow> match_d_dash (pad2 d @ CHR ''-'' # r) = [(d, r)]"
  using match_d_dash_all day_range by blast

lemma match_m_dash_pad2:
  "1 \<le> m \<Longrightarrow> m \<le> 12 \<Longrightarrow> match_m_dash (pad2 m @ CHR ''-'' # r) = [(m, r)]"
  using match_m_dash_all month_range by blast

lemma digit_char_0: "digit_char 0 = CHR ''0''"
  by (rule digit_chars)

lemma dec_small: "n < 10 \<Longrightarrow> dec n = [digit_char n]"
  by simp

lemma dec_step: "\<not> n < 10 \<Longrightarrow> dec n = dec (n div 10) @ [digit_char (n mod 10)]"
  by (subst dec.simps) simp

lemma four_digits_digits:
  assumes "y \<le> 9999"
  shows "four_digits y = [digit_char (y div 1000), digit_char (y div 100 mod 10),
                   digit_char (y div 10 mod 10), digit_char (y mod 10)]"
proof -
  have e: "y div 10 div 10 = y div 100" "y div 100 div 10 = y div 1000"
    by (simp_all add: div_mult2_eq)
  consider "y < 10" | "10 \<le> y" "y < 100" | "100 \<le> y" "y < 1000" | "1000 \<le> y"
    by linarith
  then show ?thesis
  proof cases
    case 1
    then show ?thesis by (simp add: four_digits_def digit_char_0 numeral_3_eq_3)
  next
    case 2
    then have a: "\<not> y < 10" "y div 10 < 10" by auto
    have d: "dec y = [digit_char (y div 10), digit_char (y mod 10)]"
      by (simp only: dec_step [OF a(1)] dec_small [OF a(2)] append.simps)
    from 2 show ?thesis by (simp add: four_digits_def d digit_char_0 numeral_2_eq_2 del: dec.simps)
  next
    case 3
    then have a: "\<not> y < 10" "\<not> y div 10 < 10" "y div 100 < 10" by auto
    have d: "dec y = [digit_char (y div 100), digit_char (y div 10 mod 10), digit_char (y mod 10)]"
      by (simp only: dec_step [OF a(1)] dec_step [OF a(2)] e dec_small [OF a(3)] append.simps)
    from 3 show ?thesis by (simp add: four_digits_def d digit_char_0 del: dec.simps)
  next
    case 4
    with assms have a: "\<not> y < 10" "\<not> y div 10 < 10" "\<not> y div 100 < 10" "y div 1000 < 10"
      by auto
    have d: "dec y = [digit_char (y div 1000), digit_char (y div 100 mod 10),
                      digit_char (y div 10 mod 10), digit_char (y mod 10)]"
      by (simp only: dec_step [OF a(1)] dec_step [OF a(2)] e dec_step [OF a(3)]
            dec_small [OF a(4)] append.simps)
    from 4 show ?thesis by (simp add: four_digits_def d del: dec.simps)
  qed
qed

lemma in_digits_digit_char: "k < 10 \<Longrightarrow> in_digits 0 9 (digit_char k) \<and> digit_val (digit_char k) = k"
  by (simp add: in_digits_def digit_val_def code_digit_char)

lemma year_digits:
  "1000 * (y div 1000) + 100 * (y div 100 mod 10) + 10 * (y div 10 mod 10) + y mod 10 = (y::nat)"
  if "y \<le> 9999"
proof -
  have e: "y div 100 = y div 10 div 10" "y div 1000 = y div 100 div 10"
    by (simp_all add: div_mult2_eq)
  have "y = 10 * (y div 10) + y mod 10" by simp
  moreover have "y div 10 = 10 * (y div 100) + y div 10 mod 10" unfolding e(1) by simp
  moreover have "y div 100 = 10 * (y div 1000) + y div 100 mod 10" unfolding e(2) by simp
  ultimately show ?thesis by linarith
qed

lemma match_Y_four_digits:
  assumes "y \<le> 9999"
  shows "match_Y (four_digits y) = [(y, [])]"
proof -
  have k: "y div 1000 < 10" "y div 100 mod 10 < 10" "y div 10 mod 10 < 10" "y mod 10 < 10"
    using assms by auto
  show ?thesis
    by (simp add: four_digits_digits [OF assms] match_Y_def in_digits_digit_char [OF k(1)]
          in_digits_digit_char [OF k(2)] in_digits_digit_char [OF k(3)]
          in_digits_digit_char [OF k(4)] year_digits [OF assms])
qed

lemma strptime_ddmmyyyy:
  assumes "valid_date (year t) (month t) (day t)"
  shows "strptime_dmY (ddmmyyyy t)
           = Some \<lparr>year = year t, month = month t, day = day t, hour = 0, minute = 0\<rparr>"
proof -
  from assms have d: "1 \<le> day t" "day t \<le> 31"
    and m: "1 \<le> month t" "month t \<le> 12" and y: "year t \<le> 9999"
    by (auto simp: valid_date_def days_in_month_def split: if_splits)
  show ?thesis
    using assms
    by (simp add: strptime_dmY_def ddmmyyyy_def match_d_dash_pad2 [OF d]
          match_m_dash_pad2 [OF m] match_Y_four_digits [OF y])
qed




lemma query_gemini_Some: "query_gemini g = Some r \<longleftrightarrow> g = Generated (Some r) \<and> r \<noteq> []"
  by (auto simp: query_gemini_def split: generation.splits option.splits if_splits)

lemma query_gemini_None:
  "query_gemini g = None \<longleftrightarrow> g = Raises \<or> g = Generated None \<or> g = Generated (Some [])"
  by (auto simp: query_gemini_def split: generation.splits option.splits if_splits)

lemma add_one_day_error: "add_one_day t = Inl x \<Longrightarrow> x = OverflowError"
  by (auto simp: add_one_day_def split: if_splits)

lemma add_one_day_ok: "year t < 9999 \<Longrightarrow> \<exists>tm. add_one_day t = Inr tm"
  by (auto simp: add_one_day_def)

lemma normalize_error:
  "normalize_due_date now parsed = Inl x \<Longrightarrow> x = AttributeError \<or> x = OverflowError"
  by (auto simp: normalize_due_date_def dest: add_one_day_error
      split: json.splits option.splits sum.splits if_splits)

lemma normalize_not_object:
  "\<forall>kvs. parsed \<noteq> JObject kvs \<Longrightarrow> normalize_due_date now parsed = Inl AttributeError"
  by (cases parsed) (auto simp: normalize_due_date_def)

lemma normalize_absent:
  "map_of kvs ''due_date'' = None \<Longrightarrow> normalize_due_date now (JObject kvs) = Inr kvs"
  by (simp add: normalize_due_date_def lower_def)

lemma normalize_not_string:
  "map_of kvs ''due_date'' = Some v \<Longrightarrow> \<forall>s. v \<noteq> JString s
     \<Longrightarrow> normalize_due_date now (JObject kvs) = Inl AttributeError"
  by (cases v) (auto simp: normalize_due_date_def)

lemma normalize_other_string:
  "map_of kvs ''due_date'' = Some (JString s) \<Longrightarrow> lower s \<noteq> ''tomorrow''
     \<Longrightarrow> normalize_due_date now (JObject kvs) = Inr kvs"
  by (simp add: normalize_due_date_def)

lemma normalize_tomorrow:
  "map_of kvs ''due_date'' = Some (JString s) \<Longrightarrow> lower s = ''tomorrow''
     \<Longrightarrow> add_one_day now = Inr tm
     \<Longrightarrow> normalize_due_date now (JObject kvs)
           = Inr (setitem kvs ''due_date'' (JString (strftime_dmY tm)))"
  by (simp add: normalize_due_date_def)

lemma normalize_keys:
  "normalize_due_date now (JObject kvs) = Inr out \<Longrightarrow> k \<noteq> ''due_date''
     \<Longrightarrow> map_of out k = map_of kvs k"
  by (auto simp: normalize_due_date_def map_of_setitem
      split: option.splits json.splits sum.splits if_splits)

lemma parse_task_none: "query_gemini g = None \<Longrightarrow> parse_task loads now g = Inl NoResponse"
  by (simp add: parse_task_def parse_task_try_def)

lemma parse_task_text:
  assumes "g = Generated (Some r)" "r \<noteq> []" "unwrap (strip r) = Inr text"
  shows "parse_task loads now g =
     (case loads text of
        None \<Rightarrow> Inl InvalidJSON
      | Some parsed \<Rightarrow>
          (case normalize_due_date now parsed of
             Inl x \<Rightarrow> Inl (Error x)
           | Inr kvs \<Rightarrow>
               if list_all (\<lambda>field. map_of kvs field \<noteq> None) required_fields
               then Inr kvs else Inl MissingFields))"
proof -
  have q: "query_gemini g = Some r" using assms by (simp add: query_gemini_Some)
  show ?thesis
  proof (cases "loads text")
    case None
    with q assms show ?thesis by (simp add: parse_task_def parse_task_try_def)
  next
    case (Some parsed)
    show ?thesis
    proof (cases "normalize_due_date now parsed")
      case (Inl x)
      from normalize_error [OF Inl] Inl Some q assms show ?thesis
        by (auto simp: parse_task_def parse_task_try_def)
    next
      case (Inr kvs)
      with Some q assms show ?thesis
        by (simp add: parse_task_def parse_task_try_def)
    qed
  qed
qed

lemma parse_task_shape:
  "parse_task loads now g = Inl NoResponse \<or> parse_task loads now g = Inl InvalidJSON
   \<or> parse_task loads now g = Inl MissingFields
   \<or> parse_task loads now g = Inl (Error AttributeError)
   \<or> parse_task loads now g = Inl (Error OverflowError)
   \<or> (\<exists>kvs. parse_task loads now g = Inr kvs
          \<and> list_all (\<lambda>field. map_of kvs field \<noteq> None) required_fields)"
proof (cases "query_gemini g")
  case None
  then show ?thesis by (simp add: parse_task_none)
next
  case (Some r)
  then have g: "g = Generated (Some r)" "r \<noteq> []" by (simp_all add: query_gemini_Some)
  obtain body where t: "unwrap (strip r) = Inr body" using unwrap_total by blast
  show ?thesis
    unfolding parse_task_text [OF g t]
    by (auto split: option.splits sum.splits dest: normalize_error)
qed

lemma add_task_failure:
  "parse_task loads now g = Inl f \<Longrightarrow> add_task loads conn fault ts now d u n g = d"
  by (simp add: add_task_def)

lemma filter_email_absent:
  "e \<notin> set (map u_email us) \<Longrightarrow> filter (\<lambda>r. u_email r = e \<and> Q r) us = []"
  by (induction us) auto

lemma verify_user_Some:
  assumes "verify_user H True d e p = Some i"
  shows "\<exists>r\<in>set (users d). u_email r = e \<and> u_password r = H p
           \<and> i = \<lparr>ident_id = u_id r, ident_email = e\<rparr>"
proof -
  let ?m = "filter (\<lambda>r. u_email r = e \<and> u_password r = H p) (users d)"
  from assms obtain r rs where m: "?m = r # rs"
    and i: "i = \<lparr>ident_id = u_id r, ident_email = u_email r\<rparr>"
    by (auto simp: verify_user_def split: list.splits)
  have "r \<in> set ?m" by (simp add: m)
  then have "r \<in> set (users d) \<and> u_email r = e \<and> u_password r = H p" by simp
  with i show ?thesis by auto
qed

lemma verify_user_None:
  "verify_user H conn d e p = None \<longleftrightarrow>
     \<not> conn \<or> \<not> (\<exists>r\<in>set (users d). u_email r = e \<and> u_password r = H p)"
proof (cases "filter (\<lambda>r. u_email r = e \<and> u_password r = H p) (users d)")
  case Nil
  then show ?thesis by (auto simp: verify_user_def filter_empty_conv)
next
  case (Cons r rs)
  then have "r \<in> set (filter (\<lambda>r. u_email r = e \<and> u_password r = H p) (users d))" by simp
  then have "\<exists>r\<in>set (users d). u_email r = e \<and> u_password r = H p" by auto
  with Cons show ?thesis by (simp add: verify_user_def)
qed

lemma split_from_body:
  "CHR 0x60 \<notin> set b \<Longrightarrow> split_from acc (b @ fence @ rest) = (rev acc @ b) # split_from [] rest"
proof (induction b arbitrary: acc)
  case Nil
  then show ?case by (simp add: fence_def)
next
  case (Cons x b)
  then have "x \<noteq> CHR 0x60" by auto
  then have "take 3 (x # b @ fence @ rest) \<noteq> fence" by (auto simp: fence_def)
  with Cons show ?case by simp
qed

lemma unwrap_unfenced: "\<not> has_fence s \<Longrightarrow> unwrap s = Inr (strip (strip_backticks s))"
  by (simp add: unwrap_def)

lemma unwrap_fenced:
  assumes "CHR 0x60 \<notin> set b"
  shows "unwrap (fence @ b @ fence @ rest)
           = Inr (strip (strip_backticks (if take 4 b = ''json'' then drop 4 b else b)))"
proof -
  have h: "has_fence (fence @ b @ fence @ rest)" by (simp add: fence_def)
  have "split_fence (fence @ b @ fence @ rest) = [] # split_from [] (b @ fence @ rest)"
    by (simp add: split_fence_def fence_def)
  then have "split_fence (fence @ b @ fence @ rest) = [] # b # split_from [] rest"
    using split_from_body [OF assms, of "[]" rest] by simp
  then have "item (split_fence (fence @ b @ fence @ rest)) 1 = Inr b"
    by (simp add: item_def)
  with h show ?thesis by (simp add: unwrap_def)
qed







lemma strptime_valid:
  "strptime_dmY s = Some due \<Longrightarrow> valid_date (year due) (month due) (day due)"
  by (auto simp: strptime_dmY_def split: list.splits prod.splits if_splits)

lemma date_less_date:
  "date_less \<lparr>year = year t, month = month t, day = day t, hour = h, minute = mi\<rparr> now = date_less t now"
  by (simp add: date_less_def)

lemma insert_task_tasks:
  assumes "insert_task fault ts d u td = Inr d'"
  shows "\<exists>row v. tasks d' = tasks d @ [row] \<and> map_of td ''priority'' = Some v
           \<and> bind_text v = Inr (t_priority row)"
proof -
  from assms obtain jt jc jd jp t c dd p tt where
    g: "getitem td ''priority'' = Inr jp" and b: "bind_text jp = Inr p"
    and d': "d' = d\<lparr>tasks := tasks d @
               [\<lparr>t_id = next_task_id d, t_user_id = u, t_task = tt, t_customer = c,
                 t_due_date = dd, t_priority = p, t_status = ''active'',
                 t_completion_date = None, t_created_at = ts\<rparr>],
             task_seq := next_task_id d\<rparr>"
    unfolding insert_task_def
    by (auto split: sum.splits option.splits if_splits)
  from g have "map_of td ''priority'' = Some jp"
    by (auto simp: getitem_def split: option.splits)
  with b d' show ?thesis by simp
qed

lemma register_user_tasks:
  "register_user H conn ts d e p = Inr (ok, d') \<Longrightarrow> tasks d' = tasks d"
  by (auto simp: register_user_def insert_user_def split: if_splits)

lemma step_priority:
  assumes "t \<in> set (tasks (step H loads e d))"
  shows "(\<exists>t'\<in>set (tasks d). t_priority t = t_priority t')
       \<or> (\<exists>parsed v. extracted loads e = Some parsed \<and> map_of parsed ''priority'' = Some v
             \<and> bind_text v = Inr (t_priority t))"
proof (cases e)
  case (Register conn ts em p)
  have "tasks (step H loads e d) = tasks d"
    unfolding Register
    by (cases "register_user H conn ts d em p") (auto dest: register_user_tasks)
  with assms show ?thesis by auto
next
  case (AddTask conn fault ts now u n g)
  show ?thesis
  proof (cases "parse_task loads now g")
    case (Inl f)
    then have "step H loads e d = d" by (simp add: AddTask add_task_failure)
    with assms show ?thesis by auto
  next
    case (Inr parsed)
    then have ex: "extracted loads e = Some parsed" by (simp add: AddTask)
    show ?thesis
    proof (cases "conn \<and> n \<noteq> [] \<and> parsed \<noteq> []")
      case False
      with Inr have "step H loads e d = d"
        by (auto simp: AddTask add_task_def save_task_def)
      with assms show ?thesis by auto
    next
      case True
      show ?thesis
      proof (cases "insert_task fault ts d u parsed")
        case (Inl x)
        with True \<open>parse_task loads now g = Inr parsed\<close> have "step H loads e d = d"
          by (simp add: AddTask add_task_def save_task_def)
        with assms show ?thesis by auto
      next
        case (Inr d')
        from insert_task_tasks [OF Inr] obtain row v where
          r: "tasks d' = tasks d @ [row]" "map_of parsed ''priority'' = Some v"
             "bind_text v = Inr (t_priority row)" by blast
        from True AddTask \<open>parse_task loads now g = Inr parsed\<close> Inr
        have "step H loads e d = d'" by (simp add: add_task_def save_task_def)
        with assms r ex show ?thesis by auto
      qed
    qed
  qed
next
  case (Complete conn fault now u tid)
  with assms show ?thesis
    by (auto simp: complete_task_def update_completed_def split: if_splits option.splits)
next
  case (Delete conn fault u tid)
  with assms show ?thesis
    by (auto simp: delete_task_def delete_rows_def split: if_splits option.splits)
qed

lemma run_snoc: "run H loads (evs @ [e]) = step H loads e (run H loads evs)"
  by (simp add: run_def)

lemma run_priority:
  "t \<in> set (tasks (run H loads evs)) \<Longrightarrow>
     \<exists>e\<in>set evs. \<exists>parsed v. extracted loads e = Some parsed
        \<and> map_of parsed ''priority'' = Some v \<and> bind_text v = Inr (t_priority t)"
proof (induction evs arbitrary: t rule: rev_induct)
  case Nil
  then show ?case by (simp add: run_def init_database_def)
next
  case (snoc e evs)
  from snoc.prems have "t \<in> set (tasks (step H loads e (run H loads evs)))"
    by (simp add: run_snoc)
  from step_priority [OF this] show ?case
  proof
    assume "\<exists>t'\<in>set (tasks (run H loads evs)). t_priority t = t_priority t'"
    then obtain t' where "t' \<in> set (tasks (run H loads evs))" "t_priority t = t_priority t'"
      by blast
    with snoc.IH [of t'] show ?thesis by auto
  next
    assume "\<exists>parsed v. extracted loads e = Some parsed \<and> map_of parsed ''priority'' = Some v
             \<and> bind_text v = Inr (t_priority t)"
    then show ?thesis by auto
  qed
qed

lemma unwrap_examples:
  "unwrap (strip example_response) = Inr example_response"
  "unwrap (strip example_urgent) = Inr example_urgent"
  "unwrap (strip example_numeric_due_date) = Inr example_numeric_due_date"
  by (simp_all add: example_response_def example_urgent_def example_numeric_due_date_def
        unwrap_def strip_def strip_by_def strip_backticks_def isspace_def code_def fence_def)

lemma example_loads_simps:
  "example_loads example_response =
     Some (JObject [(''task'', JString ''Write an email to David on ABC project''),
                    (''customer'', JString ''David''), (''due_date'', JString ''tomorrow''),
                    (''priority'', JString ''Medium'')])"
  "example_loads example_urgent =
     Some (JObject [(''task'', JString ''Call Eve''), (''customer'', JString ''Eve''),
                    (''due_date'', JString ''14-11-2024''), (''priority'', JString ''Urgent'')])"
  "example_loads example_numeric_due_date =
     Some (JObject [(''task'', JString ''Call Eve''), (''customer'', JString ''Eve''),
                    (''due_date'', JInt 20241114), (''priority'', JString ''Low'')])"
  by (simp_all add: example_loads_def example_response_def example_urgent_def
        example_numeric_due_date_def example_no_priority_def example_no_due_date_def)

lemma example_nonempty:
  "example_response \<noteq> []" "example_urgent \<noteq> []" "example_numeric_due_date \<noteq> []"
  by (simp_all add: example_response_def example_urgent_def example_numeric_due_date_def)

lemma parse_example_urgent:
  "parse_task example_loads example_now (Generated (Some example_urgent))
     = Inr [(''task'', JString ''Call Eve''), (''customer'', JString ''Eve''),
            (''due_date'', JString ''14-11-2024''), (''priority'', JString ''Urgent'')]"
  by (simp add: parse_task_text [OF refl example_nonempty(2) unwrap_examples(2)]
        example_loads_simps normalize_due_date_def lower_def lower_char_def isupper_def code_def
        required_fields_def)

lemma parse_example_response:
  "parse_task example_loads example_now (Generated (Some example_response))
     = Inr [(''task'', JString ''Write an email to David on ABC project''),
            (''customer'', JString ''David''), (''due_date'', JString ''05-11-2024''),
            (''priority'', JString ''Medium'')]"
  by (simp add: parse_task_text [OF refl example_nonempty(1) unwrap_examples(1)]
        example_loads_simps normalize_due_date_def lower_def lower_char_def isupper_def code_def
        required_fields_def add_one_day_def example_now_def days_in_month_def
        strftime_dmY_def pad2_def digit_chars)

section \<open>The credential store\<close>

text \<open>
  Claim C3. For a password that passes \<open>validate_password\<close> and an email that no user row
  holds, \<open>register_user\<close> returns \<open>True\<close>, and \<open>verify_user\<close> on the resulting store with
  the same credentials returns the identity of the new row: its id and the email.
  This holds for every digest function \<open>H\<close>.
\<close>

theorem register_then_verify:
  assumes "fst (validate_password p)" and "e \<notin> set (map u_email (users d))"
  shows "\<exists>d'. register_user H True ts d e p = Inr (True, d')
            \<and> verify_user H True d' e p
                = Some \<lparr>ident_id = next_user_id (users d), ident_email = e\<rparr>"
  using assms(2)
  by (simp add: register_user_def insert_user_def verify_user_def filter_email_absent)

theorem register_then_verify_witness:
  "fst (validate_password ''Str0ngPass'')
   \<and> ''eve@example.org'' \<notin> set (map u_email (users example_db))
   \<and> (\<exists>d'. register_user example_hash True ''2024-11-04 09:30:00'' example_db
               ''eve@example.org'' ''Str0ngPass'' = Inr (True, d')
          \<and> verify_user example_hash True d' ''eve@example.org'' ''Str0ngPass''
               = Some \<lparr>ident_id = 3, ident_email = ''eve@example.org''\<rparr>)"
proof -
  have h1: "fst (validate_password ''Str0ngPass'')"
    by (simp add: validate_password_def isupper_def islower_def isdigit_def code_def)
  have h2: "''eve@example.org'' \<notin> set (map u_email (users example_db))"
    by (simp add: example_db_def)
  have n: "next_user_id (users example_db) = 3"
    by (simp add: next_user_id_def example_db_def)
  from register_then_verify [OF h1 h2, of example_hash "''2024-11-04 09:30:00''"] h1 h2
  show ?thesis unfolding n by blast
qed

text \<open>
  Claim C7. With a connection, \<open>verify_user\<close> returns an identity exactly when some user
  row holds both the email and the digest of the supplied password, and the identity is
  that of such a row. For an email that no row holds, and for an email whose rows all hold
  a digest other than that of the supplied password, the result is the same \<open>None\<close>.
\<close>

theorem verify_user_exact:
  "((verify_user H True d e p \<noteq> None)
      = (\<exists>r\<in>set (users d). u_email r = e \<and> u_password r = H p))
   \<and> (\<forall>i. verify_user H True d e p = Some i \<longrightarrow>
         (\<exists>r\<in>set (users d). u_email r = e \<and> u_password r = H p
            \<and> i = \<lparr>ident_id = u_id r, ident_email = e\<rparr>))
   \<and> (e \<notin> set (map u_email (users d)) \<longrightarrow> verify_user H conn d e p = None)
   \<and> ((\<forall>r\<in>set (users d). u_email r = e \<longrightarrow> u_password r \<noteq> H p)
         \<longrightarrow> verify_user H conn d e p = None)"
proof (intro conjI allI impI)
  show "(verify_user H True d e p \<noteq> None)
      = (\<exists>r\<in>set (users d). u_email r = e \<and> u_password r = H p)"
    by (simp add: verify_user_None)
next
  fix i assume "verify_user H True d e p = Some i"
  then show "\<exists>r\<in>set (users d). u_email r = e \<and> u_password r = H p
            \<and> i = \<lparr>ident_id = u_id r, ident_email = e\<rparr>"
    by (rule verify_user_Some)
next
  assume "e \<notin> set (map u_email (users d))"
  then show "verify_user H conn d e p = None"
    by (auto simp: verify_user_None)
next
  assume "\<forall>r\<in>set (users d). u_email r = e \<longrightarrow> u_password r \<noteq> H p"
  then show "verify_user H conn d e p = None"
    by (auto simp: verify_user_None)
qed

theorem verify_user_exact_witness:
  "verify_user example_hash True example_db ''ann@example.org'' ''Passw0rd''
     = Some \<lparr>ident_id = 1, ident_email = ''ann@example.org''\<rparr>
   \<and> verify_user example_hash True example_db ''ann@example.org'' ''passw0rd'' = None
   \<and> verify_user example_hash True example_db ''zoe@example.org'' ''Passw0rd'' = None"
proof -
  note t = verify_user_exact [of example_hash example_db]
  have a: "\<exists>r\<in>set (users example_db). u_email r = ''ann@example.org''
             \<and> u_password r = example_hash ''Passw0rd''"
    by (simp add: example_db_def)
  have b: "\<forall>r\<in>set (users example_db). u_email r = ''ann@example.org''
             \<longrightarrow> u_password r \<noteq> example_hash ''passw0rd''"
    by (simp add: example_db_def example_hash_def)
  have c: "''zoe@example.org'' \<notin> set (map u_email (users example_db))"
    by (simp add: example_db_def)
  from t [of "''ann@example.org''" "''Passw0rd''" True] a
  obtain i where i: "verify_user example_hash True example_db ''ann@example.org'' ''Passw0rd'' = Some i"
    by auto
  with t [of "''ann@example.org''" "''Passw0rd''" True]
  obtain r where "r \<in> set (users example_db)" "u_email r = ''ann@example.org''"
    "i = \<lparr>ident_id = u_id r, ident_email = ''ann@example.org''\<rparr>"
    by blast
  then have "i = \<lparr>ident_id = 1, ident_email = ''ann@example.org''\<rparr>"
    by (auto simp: example_db_def)
  with i t [of "''ann@example.org''" "''passw0rd''" True] b
       t [of "''zoe@example.org''" "''Passw0rd''" True] c
  show ?thesis by blast
qed

text \<open>
  Claim C8. When some user row already holds the email, the INSERT of \<open>register_user\<close>
  raises the IntegrityError of the UNIQUE constraint, \<open>register_user\<close> returns \<open>False\<close>,
  and the store it leaves is the store it found: no row is added and none is changed.
\<close>

theorem register_duplicate_email:
  assumes "e \<in> set (map u_email (users d))"
  shows "insert_user ts d e (H p) = Inl IntegrityError
       \<and> register_user H True ts d e p = Inr (False, d)
       \<and> register_user H conn ts d e p = Inr (False, d)"
  using assms by (simp add: register_user_def insert_user_def)

theorem register_duplicate_email_witness:
  "''ann@example.org'' \<in> set (map u_email (users example_db))
   \<and> register_user example_hash True ''2024-11-04 09:30:00'' example_db
        ''ann@example.org'' ''An0therPass'' = Inr (False, example_db)"
proof -
  have h: "''ann@example.org'' \<in> set (map u_email (users example_db))"
    by (simp add: example_db_def)
  from register_duplicate_email [OF h] h show ?thesis by blast
qed

section \<open>The task store\<close>

text \<open>
  Claim C1, as the code has it. When no task row has both the id \<open>task_id\<close> and the owner
  \<open>user_id\<close> (the task does not exist, or another user owns it), \<open>complete_task\<close> leaves
  the store as it found it, every field of every task included. What it returns does not
  depend on that: it is \<open>True\<close> exactly when the connection was obtained and neither the
  binding of the ids nor the engine raised, since an UPDATE that matches no row is not an
  error and the number of rows updated is not looked at.
\<close>

theorem complete_task_not_owned:
  assumes "\<forall>r\<in>set (tasks d). \<not> (t_id r = task_id \<and> t_user_id r = user_id)"
  shows "snd (complete_task conn fault now d user_id task_id) = d
       \<and> fst (complete_task conn fault now d user_id task_id)
           = (conn \<and> fault = None \<and> fits_int64 task_id \<and> fits_int64 user_id)"
proof -
  have "map (\<lambda>t. if t_id t = task_id \<and> t_user_id t = user_id
                 then t\<lparr>t_status := ''completed'',
                        t_completion_date := Some (strftime_dmYHM now)\<rparr>
                 else t) (tasks d) = tasks d"
    using assms by (intro map_idI) auto
  then show ?thesis
    by (cases fault) (simp_all add: complete_task_def update_completed_def)
qed

theorem complete_task_not_owned_witness:
  "complete_task True None example_now example_db 1 1 = (True, example_db)
   \<and> complete_task True None example_now example_db 2 7 = (True, example_db)
   \<and> complete_task True (Some OperationalError) example_now example_db 1 1 = (False, example_db)
   \<and> complete_task True None example_now example_db 1 (2 ^ 63) = (False, example_db)
   \<and> complete_task False None example_now example_db 1 1 = (False, example_db)"
proof -
  have h1: "\<forall>r\<in>set (tasks example_db). \<not> (t_id r = 1 \<and> t_user_id r = 1)"
    by (simp add: example_db_def example_task_def)
  have h2: "\<forall>r\<in>set (tasks example_db). \<not> (t_id r = 7 \<and> t_user_id r = 2)"
    by (simp add: example_db_def example_task_def)
  have h3: "\<forall>r\<in>set (tasks example_db). \<not> (t_id r = 2 ^ 63 \<and> t_user_id r = 1)"
    by (simp add: example_db_def example_task_def)
  have f: "fits_int64 1" "fits_int64 2" "fits_int64 7" "\<not> fits_int64 (2 ^ 63)"
    by (simp_all add: fits_int64_def)
  from complete_task_not_owned [OF h1, of True None example_now]
       complete_task_not_owned [OF h2, of True None example_now]
       complete_task_not_owned [OF h1, of True "Some OperationalError" example_now]
       complete_task_not_owned [OF h3, of True None example_now]
       complete_task_not_owned [OF h1, of False None example_now] f
  show ?thesis by (auto simp: prod_eq_iff)
qed

text \<open>
  Claim C1 as stated fails: task 1 belongs to user 2, and \<open>complete_task\<close> called for
  user 1 on task 1, with a connection and no exception, returns \<open>True\<close>, not failure
  (the task is left as it was).
\<close>

theorem complete_task_other_user_counterexample:
  "t_user_id (example_task 1 2 ''14-11-2024'') \<noteq> 1
   \<and> example_task 1 2 ''14-11-2024'' \<in> set (tasks example_db)
   \<and> fst (complete_task True None example_now example_db 1 1) = True"
  by (simp add: complete_task_def update_completed_def fits_int64_def example_db_def
        example_task_def)


section \<open>The extraction pipeline\<close>

text \<open>
  Claim C2, as the code has it. Whenever \<open>parse_task\<close> fails, whatever the failure, the
  task form leaves the store exactly as it found it: \<open>save_task\<close> is not reached. The
  failures are: no response (the call raised, or returned no text or an empty text), a
  text that \<open>json.loads\<close> rejects, and a parsed object without a required field. A parsed
  object without \<open>priority\<close> always fails and nothing is stored. Which failure it is
  depends on \<open>due_date\<close>, which is looked at first: absent or a string, the failure is
  the missing-fields one (for the word \<open>tomorrow\<close>, when the next day exists); present
  and not a string, \<open>lower\<close> raises AttributeError before the fields are checked and the
  failure is the generic one.
\<close>

theorem extraction_failure_writes_nothing:
  "(\<forall>f. parse_task loads now g = Inl f
        \<longrightarrow> add_task loads conn fault ts now d user_id note_input g = d)
   \<and> (g = Raises \<or> g = Generated None \<or> g = Generated (Some [])
        \<longrightarrow> parse_task loads now g = Inl NoResponse)
   \<and> (g = Generated (Some r) \<and> r \<noteq> [] \<and> unwrap (strip r) = Inr body \<and> loads body = None
        \<longrightarrow> parse_task loads now g = Inl InvalidJSON)
   \<and> (g = Generated (Some r) \<and> r \<noteq> [] \<and> unwrap (strip r) = Inr body
        \<and> loads body = Some (JObject kvs) \<and> map_of kvs ''priority'' = None
        \<longrightarrow> (\<exists>f. parse_task loads now g = Inl f)
            \<and> add_task loads conn fault ts now d user_id note_input g = d
            \<and> (map_of kvs ''due_date'' = None \<longrightarrow> parse_task loads now g = Inl MissingFields)
            \<and> (\<forall>s. map_of kvs ''due_date'' = Some (JString s)
                     \<and> (\<not> equals_ignoring_case s ''tomorrow'' \<or> (\<exists>tm. add_one_day now = Inr tm))
                  \<longrightarrow> parse_task loads now g = Inl MissingFields)
            \<and> (\<forall>s. map_of kvs ''due_date'' = Some (JString s)
                     \<and> equals_ignoring_case s ''tomorrow'' \<and> add_one_day now = Inl OverflowError
                  \<longrightarrow> parse_task loads now g = Inl (Error OverflowError))
            \<and> (\<forall>v. map_of kvs ''due_date'' = Some v \<and> (\<forall>s. v \<noteq> JString s)
                  \<longrightarrow> parse_task loads now g = Inl (Error AttributeError)))"
proof (intro conjI allI impI)
  fix f assume "parse_task loads now g = Inl f"
  then show "add_task loads conn fault ts now d user_id note_input g = d"
    by (rule add_task_failure)
next
  assume "g = Raises \<or> g = Generated None \<or> g = Generated (Some [])"
  then show "parse_task loads now g = Inl NoResponse"
    by (simp add: parse_task_none query_gemini_None)
next
  assume "g = Generated (Some r) \<and> r \<noteq> [] \<and> unwrap (strip r) = Inr body \<and> loads body = None"
  then have "g = Generated (Some r)" "r \<noteq> []" "unwrap (strip r) = Inr body" "loads body = None"
    by simp_all
  then show "parse_task loads now g = Inl InvalidJSON"
    using parse_task_text [of g r body loads now] by simp
next
  assume a: "g = Generated (Some r) \<and> r \<noteq> [] \<and> unwrap (strip r) = Inr body
        \<and> loads body = Some (JObject kvs) \<and> map_of kvs ''priority'' = None"
  then have a': "g = Generated (Some r)" "r \<noteq> []" "unwrap (strip r) = Inr body"
    "loads body = Some (JObject kvs)" by simp_all
  then have pt: "parse_task loads now g =
      (case normalize_due_date now (JObject kvs) of
         Inl x \<Rightarrow> Inl (Error x)
       | Inr out \<Rightarrow> if list_all (\<lambda>field. map_of out field \<noteq> None) required_fields
                    then Inr out else Inl MissingFields)"
    using parse_task_text [of g r body loads now] by simp
  have miss: "\<not> list_all (\<lambda>field. map_of out field \<noteq> None) required_fields"
    if "normalize_due_date now (JObject kvs) = Inr out" for out
    using normalize_keys [OF that, of "''priority''"] a by (simp add: required_fields_def)
  have ok: "parse_task loads now g = Inl MissingFields"
    if "normalize_due_date now (JObject kvs) = Inr out" for out
    unfolding pt using miss [OF that] by (simp add: that)
  show f: "\<exists>f. parse_task loads now g = Inl f"
    unfolding pt using miss by (cases "normalize_due_date now (JObject kvs)") auto
  then show "add_task loads conn fault ts now d user_id note_input g = d"
    by (auto intro: add_task_failure)
  show "parse_task loads now g = Inl MissingFields" if "map_of kvs ''due_date'' = None"
    by (rule ok [OF normalize_absent [OF that]])
  show "parse_task loads now g = Inl MissingFields"
    if "map_of kvs ''due_date'' = Some (JString s)
          \<and> (\<not> equals_ignoring_case s ''tomorrow'' \<or> (\<exists>tm. add_one_day now = Inr tm))" for s
  proof (cases "lower s = ''tomorrow''")
    case False
    with that show ?thesis by (auto intro: ok normalize_other_string)
  next
    case True
    with that obtain tm where "add_one_day now = Inr tm" by (auto simp: lower_tomorrow)
    with that True show ?thesis by (auto intro: ok normalize_tomorrow)
  qed
  show "parse_task loads now g = Inl (Error OverflowError)"
    if "map_of kvs ''due_date'' = Some (JString s)
          \<and> equals_ignoring_case s ''tomorrow'' \<and> add_one_day now = Inl OverflowError" for s
    unfolding pt using that by (simp add: normalize_due_date_def lower_tomorrow)
  show "parse_task loads now g = Inl (Error AttributeError)"
    if "map_of kvs ''due_date'' = Some v \<and> (\<forall>s. v \<noteq> JString s)" for v
    unfolding pt using that by (simp add: normalize_not_string [of kvs v])
qed

theorem extraction_failure_writes_nothing_witness:
  "parse_task example_loads example_now (Generated (Some example_no_priority)) = Inl MissingFields
   \<and> add_task example_loads True None ''2024-11-04 09:30:00'' example_now example_db 2
         ''Call Eve by the 14th'' (Generated (Some example_no_priority)) = example_db"
proof -
  let ?kvs = "[(''task'', JString ''Call Eve''), (''customer'', JString ''Eve''),
               (''due_date'', JString ''14-11-2024'')]"
  have u: "unwrap (strip example_no_priority) = Inr example_no_priority"
    by (simp add: example_no_priority_def unwrap_def strip_def strip_by_def strip_backticks_def
          isspace_def code_def fence_def)
  have l: "example_loads example_no_priority = Some (JObject ?kvs)"
    by (simp add: example_loads_def example_no_priority_def example_response_def)
  have h1: "Generated (Some example_no_priority) = Generated (Some example_no_priority)
        \<and> example_no_priority \<noteq> []
        \<and> unwrap (strip example_no_priority) = Inr example_no_priority
        \<and> example_loads example_no_priority = Some (JObject ?kvs)
        \<and> map_of ?kvs ''priority'' = None"
    using u l by (simp add: example_no_priority_def)
  have h2: "map_of ?kvs ''due_date'' = Some (JString ''14-11-2024'')
        \<and> (\<not> equals_ignoring_case ''14-11-2024'' ''tomorrow''
            \<or> (\<exists>tm. add_one_day example_now = Inr tm))"
    by (simp add: equals_ignoring_case_def)
  from extraction_failure_writes_nothing
         [where loads = example_loads and now = example_now
            and g = "Generated (Some example_no_priority)" and r = example_no_priority
            and body = example_no_priority and kvs = "?kvs" and conn = True and fault = None
            and ts = "''2024-11-04 09:30:00''" and d = example_db and user_id = 2
            and note_input = "''Call Eve by the 14th''"] h1 h2
  show ?thesis by blast
qed

text \<open>
  Claim C2 as stated fails in its last part: a response without \<open>priority\<close> whose
  \<open>due_date\<close> is a number does not yield the missing-fields failure; the call of \<open>lower\<close>
  raises first and the generic handler reports it. No task is created.
\<close>

theorem missing_priority_other_failure_counterexample:
  "example_loads example_no_priority_numeric
     = Some (JObject [(''task'', JString ''Call Eve''), (''customer'', JString ''Eve''),
                      (''due_date'', JInt 20241114)])
   \<and> map_of [(''task'', JString ''Call Eve''), (''customer'', JString ''Eve''),
             (''due_date'', JInt 20241114)] ''priority'' = None
   \<and> parse_task example_loads example_now (Generated (Some example_no_priority_numeric))
       = Inl (Error AttributeError)
   \<and> parse_task example_loads example_now (Generated (Some example_no_priority_numeric))
       \<noteq> Inl MissingFields"
proof -
  have u: "unwrap (strip example_no_priority_numeric) = Inr example_no_priority_numeric"
    by (simp add: example_no_priority_numeric_def unwrap_def strip_def strip_by_def
          strip_backticks_def isspace_def code_def fence_def)
  have n: "example_no_priority_numeric \<noteq> []"
    by (simp add: example_no_priority_numeric_def)
  have l: "example_loads example_no_priority_numeric
     = Some (JObject [(''task'', JString ''Call Eve''), (''customer'', JString ''Eve''),
                      (''due_date'', JInt 20241114)])"
    by (simp add: example_loads_def example_response_def example_no_priority_def
          example_no_due_date_def example_urgent_def example_numeric_due_date_def
          example_no_priority_numeric_def)
  have "parse_task example_loads example_now (Generated (Some example_no_priority_numeric))
       = Inl (Error AttributeError)"
    by (simp add: parse_task_text [OF refl n u] l normalize_due_date_def)
  with l show ?thesis by simp
qed




text \<open>
  Claim C10. \<open>parse_task\<close> returns a record or a failure for every outcome of the model
  call and every \<open>json.loads\<close>. The code-block extraction never fails: when the fence is
  in the text, \<open>split\<close> yields at least two segments, so the subscript \<open>[1]\<close> is in
  range; an unfenced text is only stripped, and a fenced body loses the fence and a
  leading \<open>json\<close> tag. Every exception of the \<open>try\<close> block is met by one of the two
  handlers: a text that \<open>json.loads\<close> rejects gives the invalid-JSON failure, a parsed
  value that is not an object or whose \<open>due_date\<close> is not a string gives the generic
  failure (the AttributeError is caught), and an object without \<open>due_date\<close> passes the
  normalisation untouched and fails with missing fields. A returned record holds all four
  required fields.
\<close>

theorem parse_task_total:
  "(\<exists>body. unwrap s = Inr body)
   \<and> (\<not> has_fence s \<longrightarrow> unwrap s = Inr (strip (strip_backticks s)))
   \<and> (CHR 0x60 \<notin> set b \<longrightarrow>
         unwrap (fence @ b @ fence @ rest)
           = Inr (strip (strip_backticks (if take 4 b = ''json'' then drop 4 b else b))))
   \<and> (parse_task loads now g = Inl NoResponse \<or> parse_task loads now g = Inl InvalidJSON
        \<or> parse_task loads now g = Inl MissingFields
        \<or> parse_task loads now g = Inl (Error AttributeError)
        \<or> parse_task loads now g = Inl (Error OverflowError)
        \<or> (\<exists>kvs. parse_task loads now g = Inr kvs
               \<and> list_all (\<lambda>field. map_of kvs field \<noteq> None) required_fields))
   \<and> (g = Generated (Some r) \<and> r \<noteq> [] \<and> unwrap (strip r) = Inr body \<longrightarrow>
         (loads body = None \<longrightarrow> parse_task loads now g = Inl InvalidJSON)
       \<and> (\<forall>j. loads body = Some j \<and> (\<forall>kvs. j \<noteq> JObject kvs)
              \<longrightarrow> parse_task loads now g = Inl (Error AttributeError))
       \<and> (\<forall>kvs. loads body = Some (JObject kvs) \<and> map_of kvs ''due_date'' = None
              \<longrightarrow> parse_task loads now g = Inl MissingFields)
       \<and> (\<forall>kvs v. loads body = Some (JObject kvs) \<and> map_of kvs ''due_date'' = Some v
                \<and> (\<forall>s. v \<noteq> JString s)
              \<longrightarrow> parse_task loads now g = Inl (Error AttributeError)))"
proof (intro conjI)
  show "\<exists>body. unwrap s = Inr body" by (rule unwrap_total)
  show "\<not> has_fence s \<longrightarrow> unwrap s = Inr (strip (strip_backticks s))"
    by (simp add: unwrap_unfenced)
  show "CHR 0x60 \<notin> set b \<longrightarrow>
         unwrap (fence @ b @ fence @ rest)
           = Inr (strip (strip_backticks (if take 4 b = ''json'' then drop 4 b else b)))"
    using unwrap_fenced by blast
  show "parse_task loads now g = Inl NoResponse \<or> parse_task loads now g = Inl InvalidJSON
        \<or> parse_task loads now g = Inl MissingFields
        \<or> parse_task loads now g = Inl (Error AttributeError)
        \<or> parse_task loads now g = Inl (Error OverflowError)
        \<or> (\<exists>kvs. parse_task loads now g = Inr kvs
               \<and> list_all (\<lambda>field. map_of kvs field \<noteq> None) required_fields)"
    by (rule parse_task_shape)
  show "g = Generated (Some r) \<and> r \<noteq> [] \<and> unwrap (strip r) = Inr body \<longrightarrow>
         (loads body = None \<longrightarrow> parse_task loads now g = Inl InvalidJSON)
       \<and> (\<forall>j. loads body = Some j \<and> (\<forall>kvs. j \<noteq> JObject kvs)
              \<longrightarrow> parse_task loads now g = Inl (Error AttributeError))
       \<and> (\<forall>kvs. loads body = Some (JObject kvs) \<and> map_of kvs ''due_date'' = None
              \<longrightarrow> parse_task loads now g = Inl MissingFields)
       \<and> (\<forall>kvs v. loads body = Some (JObject kvs) \<and> map_of kvs ''due_date'' = Some v
                \<and> (\<forall>s. v \<noteq> JString s)
              \<longrightarrow> parse_task loads now g = Inl (Error AttributeError))"
  proof (intro impI)
    assume "g = Generated (Some r) \<and> r \<noteq> [] \<and> unwrap (strip r) = Inr body"
    then have a: "g = Generated (Some r)" "r \<noteq> []" "unwrap (strip r) = Inr body" by simp_all
    note pt = parse_task_text [OF a, of loads now]
    show "(loads body = None \<longrightarrow> parse_task loads now g = Inl InvalidJSON)
       \<and> (\<forall>j. loads body = Some j \<and> (\<forall>kvs. j \<noteq> JObject kvs)
              \<longrightarrow> parse_task loads now g = Inl (Error AttributeError))
       \<and> (\<forall>kvs. loads body = Some (JObject kvs) \<and> map_of kvs ''due_date'' = None
              \<longrightarrow> parse_task loads now g = Inl MissingFields)
       \<and> (\<forall>kvs v. loads body = Some (JObject kvs) \<and> map_of kvs ''due_date'' = Some v
                \<and> (\<forall>s. v \<noteq> JString s)
              \<longrightarrow> parse_task loads now g = Inl (Error AttributeError))"
    proof (intro conjI allI impI)
      assume "loads body = None"
      then show "parse_task loads now g = Inl InvalidJSON" by (simp add: pt)
    next
      fix j assume "loads body = Some j \<and> (\<forall>kvs. j \<noteq> JObject kvs)"
      then show "parse_task loads now g = Inl (Error AttributeError)"
        by (simp add: pt normalize_not_object)
    next
      fix kvs assume "loads body = Some (JObject kvs) \<and> map_of kvs ''due_date'' = None"
      then show "parse_task loads now g = Inl MissingFields"
        by (simp add: pt normalize_absent required_fields_def)
    next
      fix kvs v
      assume "loads body = Some (JObject kvs) \<and> map_of kvs ''due_date'' = Some v
                \<and> (\<forall>s. v \<noteq> JString s)"
      then show "parse_task loads now g = Inl (Error AttributeError)"
        by (simp add: pt normalize_not_string [of kvs v])
    qed
  qed
qed

theorem parse_task_total_witness:
  "parse_task example_loads example_now
       (Generated (Some (fence @ ''json'' @ [CHR 0x0A] @ example_no_due_date @ [CHR 0x0A] @ fence)))
     = Inl MissingFields
   \<and> parse_task example_loads example_now (Generated (Some example_numeric_due_date))
     = Inl (Error AttributeError)
   \<and> parse_task example_loads example_now (Generated (Some ''Sorry, I cannot help.''))
     = Inl InvalidJSON"
proof -
  let ?r1 = "fence @ ''json'' @ [CHR 0x0A] @ example_no_due_date @ [CHR 0x0A] @ fence"
  let ?k1 = "[(''task'', JString ''Call Eve''), (''customer'', JString ''Eve''),
              (''priority'', JString ''Low'')]"
  let ?k2 = "[(''task'', JString ''Call Eve''), (''customer'', JString ''Eve''),
              (''due_date'', JInt 20241114), (''priority'', JString ''Low'')]"
  let ?r3 = "''Sorry, I cannot help.''"
  have g1: "Generated (Some ?r1) = Generated (Some ?r1) \<and> ?r1 \<noteq> []
      \<and> unwrap (strip ?r1) = Inr example_no_due_date"
    by (simp add: fence_def example_no_due_date_def unwrap_def strip_def strip_by_def
          strip_backticks_def isspace_def code_def split_fence_def item_def)
  have l1: "example_loads example_no_due_date = Some (JObject ?k1)
      \<and> map_of ?k1 ''due_date'' = None"
    by (simp add: example_loads_def example_response_def example_no_priority_def
          example_no_due_date_def)
  have g2: "Generated (Some example_numeric_due_date) = Generated (Some example_numeric_due_date)
      \<and> example_numeric_due_date \<noteq> []
      \<and> unwrap (strip example_numeric_due_date) = Inr example_numeric_due_date"
    by (simp add: example_nonempty unwrap_examples)
  have l2: "example_loads example_numeric_due_date = Some (JObject ?k2)
      \<and> map_of ?k2 ''due_date'' = Some (JInt 20241114) \<and> (\<forall>s. JInt 20241114 \<noteq> JString s)"
    by (simp add: example_loads_simps)
  have g3: "Generated (Some ?r3) = Generated (Some ?r3) \<and> ?r3 \<noteq> []
      \<and> unwrap (strip ?r3) = Inr ?r3"
    by (simp add: unwrap_def strip_def strip_by_def strip_backticks_def isspace_def code_def
          fence_def)
  have l3: "example_loads ?r3 = None"
    by (simp add: example_loads_def example_response_def example_no_priority_def
          example_no_due_date_def example_urgent_def example_numeric_due_date_def
          example_no_priority_numeric_def)
  note t = parse_task_total [where loads = example_loads and now = example_now]
  from t [where g = "Generated (Some ?r1)" and r = "?r1" and body = example_no_due_date] g1 l1
  have a: "parse_task example_loads example_now (Generated (Some ?r1)) = Inl MissingFields"
    by blast
  from t [where g = "Generated (Some example_numeric_due_date)"
            and r = example_numeric_due_date and body = example_numeric_due_date] g2 l2
  have b: "parse_task example_loads example_now (Generated (Some example_numeric_due_date))
             = Inl (Error AttributeError)"
    by blast
  from t [where g = "Generated (Some ?r3)" and r = "?r3" and body = "?r3"] g3 l3
  have c: "parse_task example_loads example_now (Generated (Some ?r3)) = Inl InvalidJSON"
    by blast
  from a b c show ?thesis by blast
qed

section \<open>The overdue check\<close>

text \<open>
  Claim C9. \<open>check_overdue\<close> is a function of the current date and the string. It is true
  exactly when \<open>strptime\<close> with the format \<open>%d-%m-%Y\<close> accepts the string as a date of
  the calendar and that date is earlier than today; when the parse fails it is false.
  Every valid date written as DD-MM-YYYY parses back to itself, so on such a text the
  result is the comparison of the two dates. \<open>01-01-2000\<close> is overdue on every later day,
  and \<open>not-a-date\<close> never is.
\<close>

theorem check_overdue_exact:
  "check_overdue now s = (\<exists>due. strptime_dmY s = Some due \<and> date_less due now)
   \<and> (strptime_dmY s = None \<longrightarrow> \<not> check_overdue now s)
   \<and> (\<forall>due. strptime_dmY s = Some due \<longrightarrow> valid_date (year due) (month due) (day due))
   \<and> (valid_date (year t) (month t) (day t)
        \<longrightarrow> check_overdue now (ddmmyyyy t) = date_less t now)
   \<and> (date_less \<lparr>year = 2000, month = 1, day = 1, hour = 0, minute = 0\<rparr> now
        \<longrightarrow> check_overdue now ''01-01-2000'')
   \<and> \<not> check_overdue now ''not-a-date''"
proof (intro conjI allI impI)
  show "check_overdue now s = (\<exists>due. strptime_dmY s = Some due \<and> date_less due now)"
    by (simp add: check_overdue_def split: option.splits)
  show "\<not> check_overdue now s" if "strptime_dmY s = None"
    using that by (simp add: check_overdue_def)
  show "valid_date (year due) (month due) (day due)" if "strptime_dmY s = Some due" for due
    using that by (rule strptime_valid)
  show "check_overdue now (ddmmyyyy t) = date_less t now"
    if "valid_date (year t) (month t) (day t)"
    by (simp add: check_overdue_def strptime_ddmmyyyy [OF that] date_less_date)
  have p: "strptime_dmY ''01-01-2000''
             = Some \<lparr>year = 2000, month = 1, day = 1, hour = 0, minute = 0\<rparr>"
    by (simp add: strptime_dmY_def match_defs valid_date_def days_in_month_def is_leap_def)
  show "check_overdue now ''01-01-2000''"
    if "date_less \<lparr>year = 2000, month = 1, day = 1, hour = 0, minute = 0\<rparr> now"
    using that by (simp add: check_overdue_def p)
  have "strptime_dmY ''not-a-date'' = None"
    by (simp add: strptime_dmY_def match_defs)
  then show "\<not> check_overdue now ''not-a-date''"
    by (simp add: check_overdue_def)
qed

theorem check_overdue_exact_witness:
  "check_overdue example_now ''01-01-2000''
   \<and> check_overdue example_now ''03-11-2024''
   \<and> \<not> check_overdue example_now ''04-11-2024''
   \<and> \<not> check_overdue example_now ''31-02-2024''"
proof -
  let ?a = "\<lparr>year = 2024, month = 11, day = 3, hour = 0, minute = 0\<rparr>"
  let ?b = "\<lparr>year = 2024, month = 11, day = 4, hour = 0, minute = 0\<rparr>"
  have v: "valid_date (year ?a) (month ?a) (day ?a)" "valid_date (year ?b) (month ?b) (day ?b)"
    by (simp_all add: valid_date_def days_in_month_def)
  have s: "ddmmyyyy ?a = ''03-11-2024''" "ddmmyyyy ?b = ''04-11-2024''"
    by (simp_all add: ddmmyyyy_def four_digits_def pad2_def digit_chars)
  have l: "date_less \<lparr>year = 2000, month = 1, day = 1, hour = 0, minute = 0\<rparr> example_now"
    "date_less ?a example_now" "\<not> date_less ?b example_now"
    by (simp_all add: date_less_def example_now_def)
  have n: "strptime_dmY ''31-02-2024'' = None"
    by (simp add: strptime_dmY_def match_defs valid_date_def days_in_month_def is_leap_def)
  from check_overdue_exact [of example_now "''31-02-2024''" ?a]
       check_overdue_exact [of example_now "''31-02-2024''" ?b] v l n
  show ?thesis unfolding s by blast
qed

section \<open>Stored priorities\<close>

text \<open>
  Claim C5, as the code has it. Neither \<open>parse_task\<close> nor \<open>save_task\<close> looks at the
  value of \<open>priority\<close>. In every store reached from the empty database by registrations,
  task forms, completions and deletions, the priority of each task is the stored form of
  the \<open>priority\<close> of a record that an extraction of the run returned. So the priorities
  are among High, Medium and Low whenever those of the extracted records were.
\<close>

theorem persisted_priority_from_extraction:
  "(\<forall>t\<in>set (tasks (run H loads evs)).
      \<exists>e\<in>set evs. \<exists>parsed v. extracted loads e = Some parsed
        \<and> map_of parsed ''priority'' = Some v \<and> bind_text v = Inr (t_priority t))
   \<and> ((\<forall>e\<in>set evs. \<forall>parsed. extracted loads e = Some parsed \<longrightarrow>
          map_of parsed ''priority''
            \<in> {Some (JString ''High''), Some (JString ''Medium''), Some (JString ''Low'')})
       \<longrightarrow> (\<forall>t\<in>set (tasks (run H loads evs)).
              t_priority t \<in> {Some ''High'', Some ''Medium'', Some ''Low''}))"
proof (intro conjI impI ballI)
  fix t assume "t \<in> set (tasks (run H loads evs))"
  then show "\<exists>e\<in>set evs. \<exists>parsed v. extracted loads e = Some parsed
        \<and> map_of parsed ''priority'' = Some v \<and> bind_text v = Inr (t_priority t)"
    by (rule run_priority)
next
  fix t
  assume h: "\<forall>e\<in>set evs. \<forall>parsed. extracted loads e = Some parsed \<longrightarrow>
          map_of parsed ''priority''
            \<in> {Some (JString ''High''), Some (JString ''Medium''), Some (JString ''Low'')}"
    and t: "t \<in> set (tasks (run H loads evs))"
  from run_priority [OF t] obtain e parsed v where
    e: "e \<in> set evs" "extracted loads e = Some parsed" "map_of parsed ''priority'' = Some v"
    and b: "bind_text v = Inr (t_priority t)" by blast
  from h e have "v = JString ''High'' \<or> v = JString ''Medium'' \<or> v = JString ''Low''" by auto
  with b show "t_priority t \<in> {Some ''High'', Some ''Medium'', Some ''Low''}"
    by (auto simp: bind_text_def)
qed

theorem persisted_priority_from_extraction_witness:
  "tasks (run example_hash example_loads (example_events example_response)) \<noteq> []
   \<and> list_all (\<lambda>t. t_priority t \<in> {Some ''High'', Some ''Medium'', Some ''Low''})
        (tasks (run example_hash example_loads (example_events example_response)))"
proof -
  let ?evs = "example_events example_response"
  have h: "\<forall>e\<in>set ?evs. \<forall>parsed. extracted example_loads e = Some parsed \<longrightarrow>
          map_of parsed ''priority''
            \<in> {Some (JString ''High''), Some (JString ''Medium''), Some (JString ''Low'')}"
    by (auto simp: example_events_def parse_example_response)
  have n: "tasks (run example_hash example_loads ?evs) \<noteq> []"
    by (simp add: run_def example_events_def init_database_def register_user_def insert_user_def
        next_user_id_def add_task_def parse_example_response save_task_def insert_task_def fits_int64_def
        getitem_def bind_text_def next_task_id_def)
  from persisted_priority_from_extraction [of example_hash example_loads ?evs] h
  have "\<forall>t\<in>set (tasks (run example_hash example_loads ?evs)).
          t_priority t \<in> {Some ''High'', Some ''Medium'', Some ''Low''}"
    by blast
  with n show ?thesis by (simp add: list_all_iff)
qed

text \<open>
  Claim C5 as stated fails: a response whose priority is \<open>Urgent\<close> is accepted by
  \<open>parse_task\<close>, and the task form stores the task with that priority.
\<close>

theorem priority_unvalidated_counterexample:
  "map t_priority (tasks (run example_hash example_loads (example_events example_urgent)))
     = [Some ''Urgent'']"
  by (simp add: run_def example_events_def init_database_def register_user_def insert_user_def
        next_user_id_def add_task_def parse_example_urgent save_task_def insert_task_def fits_int64_def
        getitem_def bind_text_def next_task_id_def)

end
